theory Spec2Isabelle
  imports Main "HOL-Library.Word"
begin

unbundle bit_operations_syntax

section \<open>Data model\<close>

type_synonym byte = "8 word"
type_synonym uint16_t = "16 word"
type_synonym uint32_t = "32 word"

text \<open>
  How a call ends. \<open>Returned\<close> is a normal return. \<open>Fatal\<close> is the process being
  terminated by \<open>PANIC\<close> or by a failed \<open>ASSERT\<close> (the string is the message or the
  asserted condition). \<open>OutOfBounds\<close> is an unchecked read past the end of the byte
  buffer, which C++ leaves undefined.
\<close>

datatype 'a outcome = Returned 'a | Fatal string | OutOfBounds

text \<open>
  The enumeration \<open>TokenType::Value\<close>. Its enumerator list (\<open>N19_TOKEN_TYPE_LIST\<close>)
  lives in a header; the constructors below are the enumerators that the translation unit
  names, and \<open>OtherType n\<close> stands for every other value of the underlying integer:
  the enumerators of the list that are not named here, and values outside the list.
\<close>

datatype TokenType =
    EndOfFile | Illegal | Semicolon | Comma
  | ValueAssignment | PlusEq | SubEq | MulEq | DivEq | ModEq
  | LshiftEq | RshiftEq | BitwiseAndEq | BitwiseOrEq | XorEq
  | LogicalAnd | LogicalOr | Mul | NamespaceOperator | Dot
  | Eq | Neq | Lt | Lte | Gt | Gte
  | Plus | Sub | Div | Mod
  | BitwiseAnd | BitwiseOr | Xor | Lshift | Rshift | SkinnyArrow
  | OtherType nat

text \<open>
  \<open>Token\<close>: category, type, byte offset, length and line. The offset, length and line
  are \<open>uint32_t\<close>, as in the constructors \<open>Token::eof\<close> and \<open>Token::illegal\<close>. The
  category is a bit mask whose width the model leaves open (\<open>'cat\<close>). The members
  \<open>cat_\<close>, \<open>type_\<close>, \<open>pos_\<close>, \<open>len_\<close>, \<open>line_\<close> carry the suffix \<open>m\<close> here.
\<close>

record 'cat Token =
  cat_m :: 'cat
  type_m :: TokenType
  pos_m :: uint32_t
  len_m :: uint32_t
  line_m :: uint32_t

text \<open>The lexer, as far as \<open>Token::value\<close> sees it: the source byte buffer.\<close>

record Lexer =
  src_bytes :: "byte list"

definition get_bytes :: "Lexer \<Rightarrow> byte list" where
  "get_bytes lxr = src_bytes lxr"

section \<open>Token\<close>

text \<open>
  \<open>Token::eof\<close> and \<open>Token::illegal\<close>. \<open>TokenCategory::NonCategorical\<close> is the zero
  mask. A default-constructed token has length 0 and line 1; \<open>eof\<close> leaves the length at
  its default.
\<close>

definition Token_eof :: "uint32_t \<Rightarrow> uint32_t \<Rightarrow> ('c::len word) Token" where
  "Token_eof pos line =
     \<lparr> cat_m = 0, type_m = EndOfFile, pos_m = pos, len_m = 0, line_m = line \<rparr>"

definition Token_illegal :: "uint32_t \<Rightarrow> uint32_t \<Rightarrow> uint32_t \<Rightarrow> ('c::len word) Token" where
  "Token_illegal pos len line =
     \<lparr> cat_m = 0, type_m = Illegal, pos_m = pos, len_m = len, line_m = line \<rparr>"

text \<open>\<open>Token::is_terminator\<close>.\<close>

definition Token_is_terminator :: "'cat Token \<Rightarrow> bool" where
  "Token_is_terminator tok \<longleftrightarrow> type_m tok = Semicolon \<or> type_m tok = Comma"

text \<open>
  \<open>Token::prec\<close>. \<open>prec_switch\<close> is the \<open>switch\<close> statement: it yields \<open>Some r\<close> when
  a case returns \<open>r\<close> and \<open>None\<close> when control leaves the switch through \<open>break\<close>.
  Every case label of the source falls through to \<open>default: break\<close>. After the switch
  comes the \<open>PANIC\<close>.
\<close>

fun prec_switch :: "TokenType \<Rightarrow> uint16_t option" where
  "prec_switch ValueAssignment = None"
| "prec_switch PlusEq = None"
| "prec_switch SubEq = None"
| "prec_switch MulEq = None"
| "prec_switch DivEq = None"
| "prec_switch ModEq = None"
| "prec_switch LshiftEq = None"
| "prec_switch RshiftEq = None"
| "prec_switch BitwiseAndEq = None"
| "prec_switch BitwiseOrEq = None"
| "prec_switch XorEq = None"
| "prec_switch LogicalAnd = None"
| "prec_switch LogicalOr = None"
| "prec_switch Mul = None"
| "prec_switch NamespaceOperator = None"
| "prec_switch Dot = None"
| "prec_switch Eq = None"
| "prec_switch Neq = None"
| "prec_switch Lt = None"
| "prec_switch Lte = None"
| "prec_switch Gt = None"
| "prec_switch Gte = None"
| "prec_switch Plus = None"
| "prec_switch Sub = None"
| "prec_switch Div = None"
| "prec_switch Mod = None"
| "prec_switch BitwiseAnd = None"
| "prec_switch BitwiseOr = None"
| "prec_switch Xor = None"
| "prec_switch Lshift = None"
| "prec_switch Rshift = None"
| "prec_switch SkinnyArrow = None"
| "prec_switch _ = None"

definition Token_prec :: "'cat Token \<Rightarrow> uint16_t outcome" where
  "Token_prec tok =
     (case prec_switch (type_m tok) of
        Some r \<Rightarrow> Returned r
      | None \<Rightarrow> Fatal ''Token::prec(): default assertion.'')"

text \<open>
  \<open>Token::value\<close>. \<open>value_loop\<close> is the \<open>for\<close> loop: \<open>i\<close> and \<open>j\<close> are \<open>size_t\<close>
  counters that start at \<open>pos_m\<close> and \<open>0\<close>; both stay below \<open>2 ^ 33\<close>, so they are
  natural numbers here. \<open>bytes[i]\<close> is an unchecked read: past the end of the buffer the
  outcome is \<open>OutOfBounds\<close>. \<open>static_cast<char>\<close> keeps the eight bits of the byte.
\<close>

function value_loop :: "byte list \<Rightarrow> nat \<Rightarrow> nat \<Rightarrow> nat \<Rightarrow> string \<Rightarrow> string outcome" where
  "value_loop bytes i j len ret =
     (if j < len then
        (if i < length bytes
         then value_loop bytes (i + 1) (j + 1) len (ret @ [char_of (unat (bytes ! i))])
         else OutOfBounds)
      else Returned ret)"
  by pat_completeness auto
termination
  by (relation "measure (\<lambda>(bytes, i, j, len, ret). len - j)") auto

declare value_loop.simps [simp del]

text \<open>
  The two assertions are evaluated as the source writes them: \<open>pos_m + len_m - 1\<close> is
  computed in \<open>uint32_t\<close> and wraps around; the comparison with \<open>bytes.size()\<close> is
  unsigned.
\<close>

definition Token_value :: "'cat Token \<Rightarrow> Lexer \<Rightarrow> string option outcome" where
  "Token_value tok lxr =
     (if len_m tok = 0 then Returned None
      else let bytes = get_bytes lxr in
        if \<not> unat (pos_m tok) < length bytes then Fatal ''pos_ < bytes.size()''
        else if \<not> unat (pos_m tok + len_m tok - 1) < length bytes
          then Fatal ''pos_ + len_ - 1 < bytes.size()''
        else (case value_loop bytes (unat (pos_m tok)) 0 (unat (len_m tok)) [] of
                Returned ret \<Rightarrow> Returned (Some ret)
              | Fatal msg \<Rightarrow> Fatal msg
              | OutOfBounds \<Rightarrow> OutOfBounds))"

section \<open>TokenType\<close>

text \<open>
  \<open>TokenType::to_string\<close> and \<open>TokenType::string_repr\<close>. Both are a \<open>switch\<close> with one
  case per entry \<open>X(TYPE, STR)\<close> of \<open>N19_TOKEN_TYPE_LIST\<close> and a \<open>default\<close>. The list is
  declared in a header, so it is an argument here: one triple per entry, holding the
  enumerator \<open>TYPE\<close>, its stringified name \<open>#TYPE\<close> and the spelling \<open>STR\<close>. The cases
  are tried in the order of the list; C++ rejects a switch with two equal case labels.
\<close>

type_synonym token_type_list = "(TokenType \<times> string \<times> string) list"

fun TokenType_to_string :: "token_type_list \<Rightarrow> TokenType \<Rightarrow> string" where
  "TokenType_to_string [] v = ''Unknown''"
| "TokenType_to_string ((TYP, name, REPR) # rest) v =
     (if v = TYP then name else TokenType_to_string rest v)"

fun TokenType_string_repr :: "token_type_list \<Rightarrow> TokenType \<Rightarrow> string" where
  "TokenType_string_repr [] v = ''Unknown''"
| "TokenType_string_repr ((TYP, name, REPR) # rest) v =
     (if v = TYP then REPR else TokenType_string_repr rest v)"

section \<open>TokenCategory\<close>

text \<open>
  \<open>TokenCategory::to_string\<close>. \<open>N19_TOKEN_CATEGORY_LIST\<close> is declared in a header and is an
  argument here: one pair per entry \<open>X(CAT, _)\<close>, holding the stringified name \<open>#CAT\<close> and
  the mask of the enumerator \<open>CAT\<close>. \<open>append_flags\<close> is the expansion of the list: one
  \<open>if(value & CAT) buff += ...\<close> per entry, in order.
\<close>

type_synonym 'w token_category_list = "(string \<times> 'w word) list"

fun append_flags :: "'w::len token_category_list \<Rightarrow> 'w word \<Rightarrow> string \<Rightarrow> string" where
  "append_flags [] v buff = buff"
| "append_flags ((name, CAT) # rest) v buff =
     append_flags rest v (if v AND CAT \<noteq> 0 then buff @ (name @ '' | '') else buff)"

definition TokenCategory_to_string :: "'w::len token_category_list \<Rightarrow> 'w word \<Rightarrow> string" where
  "TokenCategory_to_string cats v =
     (let buff = append_flags cats v [] in
      if buff \<noteq> [] \<and> buff ! (length buff - 2) = CHR ''|''
      then take (length buff - 3) buff
      else buff @ ''NonCategorical'')"

section \<open>Keyword lookup\<close>

text \<open>
  \<open>TokenType::from_keyword\<close> and \<open>TokenCategory::from_keyword\<close>. The keyword list
  \<open>N19_HIR_KEYWORDS\<close> and the hash \<open>murmur3_x86_32\<close> are declared in headers; both are
  arguments here. The list holds one triple per entry \<open>KEYWORD_X(NAME, TYPE, CAT)\<close>. The
  case label \<open>u8NAME_mm32\<close> is the hash of the literal spelling under the same seed. The
  switch compares the hash of the candidate with the labels in the order of the list and
  leaves through \<open>default: break\<close> when none is equal.
\<close>

type_synonym hash32 = "byte list \<Rightarrow> uint32_t \<Rightarrow> uint32_t"
type_synonym 'cat keyword_list = "(byte list \<times> TokenType \<times> 'cat) list"

definition u8 :: "string \<Rightarrow> byte list" where
  "u8 s = map of_char s"

fun TokenCategory_keyword_switch ::
    "hash32 \<Rightarrow> uint32_t \<Rightarrow> 'cat keyword_list \<Rightarrow> uint32_t \<Rightarrow> 'cat option" where
  "TokenCategory_keyword_switch mm32 seed [] h = None"
| "TokenCategory_keyword_switch mm32 seed ((NAME, TYP, CAT) # rest) h =
     (if h = mm32 NAME seed then Some CAT else TokenCategory_keyword_switch mm32 seed rest h)"

definition TokenCategory_from_keyword ::
    "hash32 \<Rightarrow> 'cat keyword_list \<Rightarrow> byte list \<Rightarrow> 'cat option" where
  "TokenCategory_from_keyword mm32 kws str =
     (let seed = 0xbeef in
      if length str > 15 then None
      else TokenCategory_keyword_switch mm32 seed kws (mm32 str seed))"

fun TokenType_keyword_switch ::
    "hash32 \<Rightarrow> uint32_t \<Rightarrow> 'cat keyword_list \<Rightarrow> uint32_t \<Rightarrow> TokenType option" where
  "TokenType_keyword_switch mm32 seed [] h = None"
| "TokenType_keyword_switch mm32 seed ((NAME, TYP, CAT) # rest) h =
     (if h = mm32 NAME seed then Some TYP else TokenType_keyword_switch mm32 seed rest h)"

definition TokenType_from_keyword ::
    "hash32 \<Rightarrow> 'cat keyword_list \<Rightarrow> byte list \<Rightarrow> TokenType option" where
  "TokenType_from_keyword mm32 kws keyword =
     (let seed = 0xbeef in
      if length keyword > 15 then None
      else TokenType_keyword_switch mm32 seed kws (mm32 keyword seed))"

subsection \<open>The hash\<close>

text \<open>
  Modelled from the spec: \<open>murmur3_x86_32\<close> (\<open>Core/Murmur3.hpp\<close>) is missing from the
  sources. The spec describes it as the public 32-bit x86 variant of MurmurHash3, with
  the multiply/rotate/xor finalization. This is that algorithm: the key is read in
  little-endian blocks of four bytes, the one to three trailing bytes are mixed in, the
  length is xor-ed in and the result is finalized.
\<close>

definition rotl32 :: "uint32_t \<Rightarrow> nat \<Rightarrow> uint32_t" where
  "rotl32 x r = push_bit r x OR drop_bit (32 - r) x"

definition mix_k1 :: "uint32_t \<Rightarrow> uint32_t" where
  "mix_k1 k1 = rotl32 (k1 * 0xcc9e2d51) 15 * 0x1b873593"

definition mix_h1 :: "uint32_t \<Rightarrow> uint32_t \<Rightarrow> uint32_t" where
  "mix_h1 h1 k1 = rotl32 (h1 XOR mix_k1 k1) 13 * 5 + 0xe6546b64"

definition get_block :: "byte \<Rightarrow> byte \<Rightarrow> byte \<Rightarrow> byte \<Rightarrow> uint32_t" where
  "get_block b0 b1 b2 b3 =
     ucast b0 OR push_bit 8 (ucast b1) OR push_bit 16 (ucast b2) OR push_bit 24 (ucast b3)"

fun murmur3_body :: "uint32_t \<Rightarrow> byte list \<Rightarrow> uint32_t" where
  "murmur3_body h1 (b0 # b1 # b2 # b3 # rest) =
     murmur3_body (mix_h1 h1 (get_block b0 b1 b2 b3)) rest"
| "murmur3_body h1 [b0, b1, b2] =
     h1 XOR mix_k1 (push_bit 16 (ucast b2) XOR push_bit 8 (ucast b1) XOR ucast b0)"
| "murmur3_body h1 [b0, b1] = h1 XOR mix_k1 (push_bit 8 (ucast b1) XOR ucast b0)"
| "murmur3_body h1 [b0] = h1 XOR mix_k1 (ucast b0)"
| "murmur3_body h1 [] = h1"

definition fmix32 :: "uint32_t \<Rightarrow> uint32_t" where
  "fmix32 h =
     (let h = h XOR drop_bit 16 h;
          h = h * 0x85ebca6b;
          h = h XOR drop_bit 13 h;
          h = h * 0xc2b2ae35
      in h XOR drop_bit 16 h)"

definition murmur3_x86_32 :: hash32 where
  "murmur3_x86_32 key seed = fmix32 (murmur3_body seed key XOR of_nat (length key))"

section \<open>Notions of the specification\<close>

text \<open>The substring \<open>B[offset : offset+length]\<close> of a buffer, end exclusive.\<close>

definition buffer_span :: "byte list \<Rightarrow> nat \<Rightarrow> nat \<Rightarrow> byte list" where
  "buffer_span B offset len = take len (drop offset B)"

text \<open>
  The names of the flags that are set in a mask, in the order of the category list: a
  flag is set when \<open>value & CAT\<close> is not zero. \<open>pipe_join\<close> joins names with the
  separator \<open>" | "\<close> between them and none at the end.
\<close>

definition set_flag_names :: "'w::len token_category_list \<Rightarrow> 'w word \<Rightarrow> string list" where
  "set_flag_names cats v = map fst (filter (\<lambda>(name, CAT). v AND CAT \<noteq> 0) cats)"

fun pipe_join :: "string list \<Rightarrow> string" where
  "pipe_join [] = []"
| "pipe_join [n] = n"
| "pipe_join (n # m # ns) = n @ '' | '' @ pipe_join (m # ns)"

text \<open>The case labels of the keyword switch: the hash of every registered spelling.\<close>

definition keyword_hashes :: "hash32 \<Rightarrow> uint32_t \<Rightarrow> 'cat keyword_list \<Rightarrow> uint32_t list" where
  "keyword_hashes mm32 seed kws = map (\<lambda>(NAME, TYP, CAT). mm32 NAME seed) kws"

section \<open>Inverting the hash\<close>

text \<open>
  Every step of the hash on a block of four bytes can be undone: the rotations, the
  multiplications by odd constants (by their inverses modulo \<open>2 ^ 32\<close>), the xor-shifts
  of the finalization. \<open>last_block h1 n t\<close> is the block of four bytes that, read in
  state \<open>h1\<close> as the last block of a key of \<open>n\<close> bytes, makes the hash equal to \<open>t\<close>.
  \<open>preimage4\<close> and \<open>preimage8\<close> are keys of four and of eight bytes with a given hash.
\<close>

definition rotr32 :: "uint32_t \<Rightarrow> nat \<Rightarrow> uint32_t" where
  "rotr32 x r = drop_bit r x OR push_bit (32 - r) x"

definition unmix_k1 :: "uint32_t \<Rightarrow> uint32_t" where
  "unmix_k1 m = rotr32 (m * 0x56ed309b) 15 * 0xdee13bb1"

definition unmix_h1 :: "uint32_t \<Rightarrow> uint32_t \<Rightarrow> uint32_t" where
  "unmix_h1 h1 h = unmix_k1 (rotr32 ((h - 0xe6546b64) * 0xcccccccd) 13 XOR h1)"

definition unfmix32 :: "uint32_t \<Rightarrow> uint32_t" where
  "unfmix32 h =
     (let h = h XOR drop_bit 16 h;
          h = h * 0x7ed1b41d;
          h = h XOR drop_bit 13 h XOR drop_bit 26 h;
          h = h * 0xa5cb9243
      in h XOR drop_bit 16 h)"

definition block_bytes :: "uint32_t \<Rightarrow> byte list" where
  "block_bytes k = [ucast k, ucast (drop_bit 8 k), ucast (drop_bit 16 k), ucast (drop_bit 24 k)]"

definition last_block :: "uint32_t \<Rightarrow> nat \<Rightarrow> uint32_t \<Rightarrow> byte list" where
  "last_block h1 n t = block_bytes (unmix_h1 h1 (unfmix32 t XOR of_nat n))"

definition preimage4 :: "uint32_t \<Rightarrow> uint32_t \<Rightarrow> byte list" where
  "preimage4 seed t = last_block seed 4 t"

definition preimage8 :: "uint32_t \<Rightarrow> uint32_t \<Rightarrow> byte list" where
  "preimage8 seed t = [0, 0, 0, 0] @ last_block (mix_h1 seed (get_block 0 0 0 0)) 8 t"

section \<open>Properties of Token\<close>

text \<open>
  C1. For every token, whatever its type, \<open>Token::prec\<close> returns no precedence: every
  case of the switch falls through and the call ends in the fatal internal error.
\<close>

theorem Token_prec_always_fatal:
  "Token_prec tok = Fatal ''Token::prec(): default assertion.''"
proof -
  have "prec_switch t = None" for t
    by (cases t) simp_all
  then show ?thesis
    by (simp add: Token_prec_def)
qed

text \<open>
  C9. \<open>Token::is_terminator\<close> is true exactly when the token's type is \<open>Semicolon\<close> or
  \<open>Comma\<close>.
\<close>

theorem Token_is_terminator_iff:
  "Token_is_terminator tok \<longleftrightarrow> type_m tok = Semicolon \<or> type_m tok = Comma"
  by (simp add: Token_is_terminator_def)

subsection \<open>The lexeme of a token\<close>

lemma value_loop_in_bounds:
  "i + (len - j) \<le> length bytes \<Longrightarrow>
   value_loop bytes i j len ret =
     Returned (ret @ map (\<lambda>b. char_of (unat b)) (take (len - j) (drop i bytes)))"
proof (induction bytes i j len ret rule: value_loop.induct)
  case (1 bytes i j len ret)
  show ?case
  proof (cases "j < len")
    case False
    then show ?thesis by (simp add: value_loop.simps)
  next
    case True
    with "1.prems" have i: "i < length bytes" by simp
    from True have d: "len - j = Suc (len - (j + 1))" by simp
    from True i "1.prems" have "value_loop bytes (i + 1) (j + 1) len (ret @ [char_of (unat (bytes ! i))]) =
       Returned ((ret @ [char_of (unat (bytes ! i))]) @ map (\<lambda>b. char_of (unat b)) (take (len - (j + 1)) (drop (i + 1) bytes)))"
      by (intro "1.IH") simp_all
    moreover have "drop i bytes = bytes ! i # drop (i + 1) bytes"
      using i by (simp add: Cons_nth_drop_Suc)
    ultimately show ?thesis
      using True i by (subst value_loop.simps) (simp add: d)
  qed
qed

lemma value_loop_out_of_bounds:
  "j < len \<Longrightarrow> length bytes < i + (len - j) \<Longrightarrow> value_loop bytes i j len ret = OutOfBounds"
proof (induction bytes i j len ret rule: value_loop.induct)
  case (1 bytes i j len ret)
  from "1.prems" have j: "j < len" by simp
  show ?case
  proof (cases "i < length bytes")
    case False
    with j show ?thesis by (subst value_loop.simps) simp
  next
    case True
    with j "1.prems" have "value_loop bytes (i + 1) (j + 1) len (ret @ [char_of (unat (bytes ! i))]) = OutOfBounds"
      by (intro "1.IH") simp_all
    with j True show ?thesis by (subst value_loop.simps) simp
  qed
qed

lemma wrapped_end_le:
  fixes p x :: "32 word"
  assumes "x \<noteq> 0"
  shows "unat (p + x - 1) \<le> unat p + unat x - 1"
proof -
  have "unat (p + x - 1) = unat (p + (x - 1))" by (simp only: add_diff_eq)
  also have "\<dots> = (unat p + unat (x - 1)) mod 2 ^ 32"
    by (simp only: unat_word_ariths) simp
  also have "\<dots> \<le> unat p + unat (x - 1)" by simp
  also have "unat (x - 1) = unat x - 1" using assms by (rule unat_minus_one)
  finally show ?thesis
    using assms by (simp add: unat_gt_0 Suc_leI)
qed

lemma of_char_char_of_byte: "(of_char (char_of (unat (b::8 word))) :: 8 word) = b"
proof -
  have "(of_char (char_of (unat b)) :: 8 word) = of_nat (of_char (char_of (unat b)))"
    by (simp only: of_nat_of_char)
  also have "\<dots> = of_nat (unat b mod 256)" by (simp only: of_char_of)
  also have "\<dots> = b" using unsigned_less [of b, where ?'a = nat] by simp
  finally show ?thesis .
qed

text \<open>
  C3. For a token of nonzero length whose span lies inside the lexer's buffer,
  \<open>Token::value\<close> returns the substring of the buffer from \<open>pos_\<close> to \<open>pos_ + len_\<close>
  (exclusive), byte for byte; for a token of length zero it returns \<open>Nothing\<close> and does
  not fail.
\<close>

theorem Token_value_substring:
  "(len_m tok = 0 \<longrightarrow> Token_value tok lxr = Returned None)
   \<and> (len_m tok \<noteq> 0 \<and> unat (pos_m tok) + unat (len_m tok) \<le> length (get_bytes lxr) \<longrightarrow>
        Token_value tok lxr =
          Returned (Some (map (\<lambda>b. char_of (unat b))
            (buffer_span (get_bytes lxr) (unat (pos_m tok)) (unat (len_m tok)))))
        \<and> (\<exists>s. Token_value tok lxr = Returned (Some s) \<and>
              map of_char s = buffer_span (get_bytes lxr) (unat (pos_m tok)) (unat (len_m tok))))"
proof (intro conjI impI)
  assume "len_m tok = 0"
  then show "Token_value tok lxr = Returned None"
    by (simp add: Token_value_def)
next
  let ?bytes = "get_bytes lxr"
  let ?s = "map (\<lambda>b. char_of (unat b)) (buffer_span ?bytes (unat (pos_m tok)) (unat (len_m tok)))"
  assume a: "len_m tok \<noteq> 0 \<and> unat (pos_m tok) + unat (len_m tok) \<le> length ?bytes"
  then have nz: "len_m tok \<noteq> 0" and fits: "unat (pos_m tok) + unat (len_m tok) \<le> length ?bytes"
    by simp_all
  from nz have pos: "0 < unat (len_m tok)" by (simp add: unat_gt_0)
  with fits have a1: "unat (pos_m tok) < length ?bytes" by simp
  have "unat (pos_m tok + len_m tok - 1) \<le> unat (pos_m tok) + unat (len_m tok) - 1"
    using nz by (rule wrapped_end_le)
  with pos fits have a2: "unat (pos_m tok + len_m tok - 1) < length ?bytes" by simp
  have "value_loop ?bytes (unat (pos_m tok)) 0 (unat (len_m tok)) [] = Returned ([] @ ?s)"
    using fits by (subst value_loop_in_bounds) (simp_all add: buffer_span_def)
  with nz a1 a2 show v: "Token_value tok lxr = Returned (Some ?s)"
    by (simp add: Token_value_def)
  have "map of_char ?s = buffer_span ?bytes (unat (pos_m tok)) (unat (len_m tok))"
    by (simp add: comp_def of_char_char_of_byte)
  with v show "\<exists>s. Token_value tok lxr = Returned (Some s) \<and>
               map of_char s = buffer_span ?bytes (unat (pos_m tok)) (unat (len_m tok))"
    by blast
qed

text \<open>
  The buffer \<open>x += 1;\<close>: the token at offset 2 of length 2 is \<open>+=\<close>, and the
  end-of-file token at offset 7 has no lexeme.
\<close>

theorem Token_value_substring_witness:
  "Token_value \<lparr>cat_m = (0 :: 32 word), type_m = PlusEq, pos_m = 2, len_m = 2, line_m = 1\<rparr>
      \<lparr>src_bytes = [0x78, 0x20, 0x2B, 0x3D, 0x20, 0x31, 0x3B]\<rparr> = Returned (Some ''+='')
   \<and> Token_value (Token_eof 7 1 :: 32 word Token)
      \<lparr>src_bytes = [0x78, 0x20, 0x2B, 0x3D, 0x20, 0x31, 0x3B]\<rparr> = Returned None"
  using Token_value_substring [of "\<lparr>cat_m = (0 :: 32 word), type_m = PlusEq, pos_m = 2, len_m = 2, line_m = 1\<rparr>"
      "\<lparr>src_bytes = [0x78, 0x20, 0x2B, 0x3D, 0x20, 0x31, 0x3B]\<rparr>"]
    Token_value_substring [of "Token_eof 7 1 :: 32 word Token"
      "\<lparr>src_bytes = [0x78, 0x20, 0x2B, 0x3D, 0x20, 0x31, 0x3B]\<rparr>"]
  by (simp add: get_bytes_def buffer_span_def char_of_def bit_Suc_0_iff Token_eof_def)

text \<open>
  When the two assertions hold as the source computes them but the span does not fit,
  the loop leaves the buffer.
\<close>

lemma Token_value_outcome:
  assumes "len_m tok \<noteq> 0"
  shows "Token_value tok lxr =
    (if \<not> unat (pos_m tok) < length (get_bytes lxr) then Fatal ''pos_ < bytes.size()''
     else if \<not> unat (pos_m tok + len_m tok - 1) < length (get_bytes lxr)
       then Fatal ''pos_ + len_ - 1 < bytes.size()''
     else if unat (pos_m tok) + unat (len_m tok) \<le> length (get_bytes lxr)
       then Returned (Some (map (\<lambda>b. char_of (unat b))
              (buffer_span (get_bytes lxr) (unat (pos_m tok)) (unat (len_m tok)))))
     else OutOfBounds)"
proof -
  from assms have pos: "0 < unat (len_m tok)" by (simp add: unat_gt_0)
  have inb: "value_loop (get_bytes lxr) (unat (pos_m tok)) 0 (unat (len_m tok)) [] =
      Returned (map (\<lambda>b. char_of (unat b))
        (buffer_span (get_bytes lxr) (unat (pos_m tok)) (unat (len_m tok))))"
    if "unat (pos_m tok) + unat (len_m tok) \<le> length (get_bytes lxr)"
    using that by (subst value_loop_in_bounds) (simp_all add: buffer_span_def)
  have oob: "value_loop (get_bytes lxr) (unat (pos_m tok)) 0 (unat (len_m tok)) [] = OutOfBounds"
    if "\<not> unat (pos_m tok) + unat (len_m tok) \<le> length (get_bytes lxr)"
    using that pos by (intro value_loop_out_of_bounds) simp_all
  show ?thesis
    using assms inb oob by (simp add: Token_value_def)
qed

text \<open>
  C6. A token of nonzero length whose span is outside the buffer must end in the fatal
  assertion. At offset 2 and length \<open>0xFFFFFFFF\<close> over a buffer of three bytes the last
  offset \<open>pos_ + len_ - 1\<close> is far outside the buffer, but the 32-bit sum wraps around to
  0: both assertions pass and the loop reads past the end of the buffer.
\<close>

theorem Token_value_wrapped_span:
  "length (get_bytes \<lparr>src_bytes = [0x61, 0x62, 0x63]\<rparr>)
     \<le> unat (2 :: uint32_t) + unat (0xFFFFFFFF :: uint32_t) - 1
   \<and> Token_value (Token_illegal 2 0xFFFFFFFF 1 :: 32 word Token) \<lparr>src_bytes = [0x61, 0x62, 0x63]\<rparr>
       = OutOfBounds"
  by (simp add: Token_value_def Token_illegal_def get_bytes_def value_loop.simps)


section \<open>Properties of TokenType\<close>

lemma TokenType_to_string_found:
  "distinct (map fst types) \<Longrightarrow> (t, name, repr) \<in> set types \<Longrightarrow>
     TokenType_to_string types t = name \<and> TokenType_string_repr types t = repr"
  by (induction types) (auto simp: image_iff)

lemma TokenType_to_string_unknown:
  "t \<notin> fst ` set types \<Longrightarrow>
     TokenType_to_string types t = ''Unknown'' \<and> TokenType_string_repr types t = ''Unknown''"
  by (induction types) auto

text \<open>
  C8. \<open>TokenType::to_string\<close> and \<open>TokenType::string_repr\<close> are total: for a variant of
  the enumeration they return its canonical name and its surface spelling, and for every
  value outside the enumeration they return \<open>"Unknown"\<close>.
\<close>

theorem TokenType_strings_total:
  "(distinct (map fst types) \<and> (t, name, repr) \<in> set types \<longrightarrow>
      TokenType_to_string types t = name \<and> TokenType_string_repr types t = repr)
   \<and> (t \<notin> fst ` set types \<longrightarrow>
      TokenType_to_string types t = ''Unknown'' \<and> TokenType_string_repr types t = ''Unknown'')"
  using TokenType_to_string_found TokenType_to_string_unknown by blast

theorem TokenType_strings_total_witness:
  "TokenType_to_string [(LogicalAnd, ''LogicalAnd'', ''&&''), (PlusEq, ''PlusEq'', ''+='')] PlusEq = ''PlusEq''
   \<and> TokenType_string_repr [(LogicalAnd, ''LogicalAnd'', ''&&''), (PlusEq, ''PlusEq'', ''+='')] PlusEq = ''+=''
   \<and> TokenType_to_string [(LogicalAnd, ''LogicalAnd'', ''&&''), (PlusEq, ''PlusEq'', ''+='')] (OtherType 999) = ''Unknown''
   \<and> TokenType_string_repr [(LogicalAnd, ''LogicalAnd'', ''&&''), (PlusEq, ''PlusEq'', ''+='')] (OtherType 999) = ''Unknown''"
  using TokenType_strings_total [of "[(LogicalAnd, ''LogicalAnd'', ''&&''), (PlusEq, ''PlusEq'', ''+='')]"
      PlusEq "''PlusEq''" "''+=''"]
    TokenType_strings_total [of "[(LogicalAnd, ''LogicalAnd'', ''&&''), (PlusEq, ''PlusEq'', ''+='')]"
      "OtherType 999" "''PlusEq''" "''+=''"]
  by simp


section \<open>Properties of TokenCategory\<close>

lemma append_flags_eq:
  "append_flags cats v buff = buff @ concat (map (\<lambda>n. n @ '' | '') (set_flag_names cats v))"
  by (induction cats arbitrary: buff) (auto simp: set_flag_names_def)

lemma concat_pipe_join:
  "names \<noteq> [] \<Longrightarrow> concat (map (\<lambda>n. n @ '' | '') names) = pipe_join names @ '' | ''"
  by (induction names rule: pipe_join.induct) simp_all

lemma TokenCategory_to_string_nonempty:
  assumes "set_flag_names cats v \<noteq> []"
  shows "TokenCategory_to_string cats v = pipe_join (set_flag_names cats v)"
proof -
  let ?p = "pipe_join (set_flag_names cats v)"
  have b: "append_flags cats v [] = ?p @ '' | ''"
    using assms by (simp add: append_flags_eq concat_pipe_join)
  have "(?p @ '' | '') ! (length (?p @ '' | '') - 2) = CHR ''|''"
    by (simp add: nth_append)
  moreover have "take (length (?p @ '' | '') - 3) (?p @ '' | '') = ?p"
    by simp
  ultimately show ?thesis
    unfolding TokenCategory_to_string_def b Let_def by simp
qed

lemma TokenCategory_to_string_empty:
  assumes "set_flag_names cats v = []"
  shows "TokenCategory_to_string cats v = ''NonCategorical''"
  using assms by (simp add: TokenCategory_to_string_def append_flags_eq)

lemma set_flag_names_zero: "set_flag_names cats 0 = []"
  by (simp add: set_flag_names_def)

lemma set_set_flag_names:
  "set (set_flag_names cats v) = {name. \<exists>CAT. (name, CAT) \<in> set cats \<and> v AND CAT \<noteq> 0}"
  by (auto simp: set_flag_names_def image_iff)

lemma distinct_set_flag_names:
  "distinct (map fst cats) \<Longrightarrow> distinct (set_flag_names cats v)"
  by (simp add: set_flag_names_def distinct_map_filter)

text \<open>
  C7. \<open>TokenCategory::to_string\<close> on the zero mask returns \<open>"NonCategorical"\<close>. On a
  mask with at least one flag set it returns the names of the set flags joined by the
  pipe separator, without a trailing separator; the joined names are exactly the names
  of the set flags, each of them once.
\<close>

theorem TokenCategory_to_string_flags:
  "TokenCategory_to_string cats 0 = ''NonCategorical''
   \<and> (set_flag_names cats v \<noteq> [] \<longrightarrow>
        TokenCategory_to_string cats v = pipe_join (set_flag_names cats v))
   \<and> set (set_flag_names cats v) = {name. \<exists>CAT. (name, CAT) \<in> set cats \<and> v AND CAT \<noteq> 0}
   \<and> (distinct (map fst cats) \<longrightarrow> distinct (set_flag_names cats v))"
proof (intro conjI impI)
  show "TokenCategory_to_string cats 0 = ''NonCategorical''"
    by (rule TokenCategory_to_string_empty) (rule set_flag_names_zero)
  show "TokenCategory_to_string cats v = pipe_join (set_flag_names cats v)"
    if "set_flag_names cats v \<noteq> []"
    using that by (rule TokenCategory_to_string_nonempty)
  show "set (set_flag_names cats v) = {name. \<exists>CAT. (name, CAT) \<in> set cats \<and> v AND CAT \<noteq> 0}"
    by (rule set_set_flag_names)
  show "distinct (set_flag_names cats v)" if "distinct (map fst cats)"
    using that by (rule distinct_set_flag_names)
qed

text \<open>
  A category list with the flags the design names; the mask 10 has \<open>Operator\<close> and
  \<open>Assignment\<close> set.
\<close>

theorem TokenCategory_to_string_flags_witness:
  "TokenCategory_to_string
     [(''NonCategorical'', 0), (''Keyword'', 1), (''Operator'', 2), (''Literal'', 4), (''Assignment'', 8)]
     (0 :: 32 word) = ''NonCategorical''
   \<and> TokenCategory_to_string
     [(''NonCategorical'', 0), (''Keyword'', 1), (''Operator'', 2), (''Literal'', 4), (''Assignment'', 8)]
     (10 :: 32 word) = ''Operator | Assignment''
   \<and> set_flag_names
     [(''NonCategorical'', 0), (''Keyword'', 1), (''Operator'', 2), (''Literal'', 4), (''Assignment'', 8)]
     (10 :: 32 word) = [''Operator'', ''Assignment'']
   \<and> distinct (set_flag_names
     [(''NonCategorical'', 0), (''Keyword'', 1), (''Operator'', 2), (''Literal'', 4), (''Assignment'', 8)]
     (10 :: 32 word))"
  using TokenCategory_to_string_flags [of
     "[(''NonCategorical'', 0), (''Keyword'', 1), (''Operator'', 2), (''Literal'', 4), (''Assignment'', 8)]"
     "10 :: 32 word"]
  by (simp add: set_flag_names_def)

section \<open>Properties of the keyword lookup\<close>

lemma TokenType_keyword_switch_None:
  "TokenType_keyword_switch mm32 seed kws h = None \<longleftrightarrow> h \<notin> set (keyword_hashes mm32 seed kws)"
  by (induction mm32 seed kws h rule: TokenType_keyword_switch.induct)
    (simp_all add: keyword_hashes_def)

lemma TokenCategory_keyword_switch_None:
  "TokenCategory_keyword_switch mm32 seed kws h = None \<longleftrightarrow> h \<notin> set (keyword_hashes mm32 seed kws)"
  by (induction mm32 seed kws h rule: TokenCategory_keyword_switch.induct)
    (simp_all add: keyword_hashes_def)

lemma keyword_switch_registered:
  "distinct (keyword_hashes mm32 seed kws) \<Longrightarrow> (K, ty, cat) \<in> set kws \<Longrightarrow>
     TokenType_keyword_switch mm32 seed kws (mm32 K seed) = Some ty \<and>
     TokenCategory_keyword_switch mm32 seed kws (mm32 K seed) = Some cat"
  by (induction kws) (auto simp: keyword_hashes_def image_iff)

text \<open>
  C10. A spelling is recognised by \<open>TokenCategory::from_keyword\<close> exactly when it is
  recognised by \<open>TokenType::from_keyword\<close>, whatever the hash and the keyword list.
\<close>

theorem from_keyword_recognised_together:
  "TokenCategory_from_keyword mm32 kws s = None \<longleftrightarrow> TokenType_from_keyword mm32 kws s = None"
  by (simp add: TokenCategory_from_keyword_def TokenType_from_keyword_def
      TokenType_keyword_switch_None TokenCategory_keyword_switch_None)

text \<open>
  C4. A spelling longer than 15 bytes is absent for both lookups. The result does not
  depend on the hash: it holds for every hash function and every keyword list.
\<close>

theorem from_keyword_length_guard:
  assumes "15 < length s"
  shows "TokenType_from_keyword mm32 kws s = None \<and> TokenCategory_from_keyword mm32 kws s = None"
  using assms by (simp add: TokenCategory_from_keyword_def TokenType_from_keyword_def)

theorem from_keyword_length_guard_witness:
  "15 < length (u8 ''an_identifier_16'')
   \<and> TokenType_from_keyword murmur3_x86_32
        [(u8 ''return'', OtherType 0, (1 :: 32 word))] (u8 ''an_identifier_16'') = None
   \<and> TokenCategory_from_keyword murmur3_x86_32
        [(u8 ''return'', OtherType 0, (1 :: 32 word))] (u8 ''an_identifier_16'') = None"
  using from_keyword_length_guard [of "u8 ''an_identifier_16''" murmur3_x86_32
      "[(u8 ''return'', OtherType 0, (1 :: 32 word))]"]
  by (simp add: u8_def)


text \<open>
  What the lookups do on the other spellings: a registered keyword of at most 15 bytes
  is found when the case labels are pairwise different (C++ rejects a switch where they
  are not), and a spelling is absent when its hash is no case label. A spelling of at
  most 15 bytes whose hash is a case label is recognised, registered or not.
\<close>

lemma from_keyword_registered:
  assumes "distinct (keyword_hashes mm32 0xbeef kws)" and "(K, ty, cat) \<in> set kws"
    and "length K \<le> 15"
  shows "TokenType_from_keyword mm32 kws K = Some ty \<and> TokenCategory_from_keyword mm32 kws K = Some cat"
  using keyword_switch_registered [OF assms(1,2)] assms(3)
  by (simp add: TokenCategory_from_keyword_def TokenType_from_keyword_def)

lemma from_keyword_hash_absent:
  assumes "mm32 s 0xbeef \<notin> set (keyword_hashes mm32 0xbeef kws)"
  shows "TokenType_from_keyword mm32 kws s = None \<and> TokenCategory_from_keyword mm32 kws s = None"
  using assms
  by (simp add: TokenCategory_from_keyword_def TokenType_from_keyword_def
      TokenType_keyword_switch_None TokenCategory_keyword_switch_None)

lemma from_keyword_hash_present:
  assumes "length s \<le> 15" and "mm32 s 0xbeef \<in> set (keyword_hashes mm32 0xbeef kws)"
  shows "TokenType_from_keyword mm32 kws s \<noteq> None \<and> TokenCategory_from_keyword mm32 kws s \<noteq> None"
  using assms
  by (simp add: TokenCategory_from_keyword_def TokenType_from_keyword_def
      TokenType_keyword_switch_None TokenCategory_keyword_switch_None)

lemma registered_same_hash:
  assumes "distinct (keyword_hashes mm32 seed kws)"
    and "(K, ty, cat) \<in> set kws" and "s \<in> fst ` set kws" and "mm32 s seed = mm32 K seed"
  shows "s = K"
proof -
  from assms(3) obtain ty' cat' where s: "(s, ty', cat') \<in> set kws" by force
  have "inj_on (\<lambda>(NAME, TYP, CAT). mm32 NAME seed) (set kws)"
    using assms(1) by (simp add: keyword_hashes_def distinct_map)
  from inj_onD [OF this _ s assms(2)] assms(4) show ?thesis by simp
qed

subsection \<open>Spellings that collide with a keyword\<close>

text \<open>The hash on published test vectors of MurmurHash3 (x86, 32 bits).\<close>

lemma murmur3_x86_32_test_vectors:
  "murmur3_x86_32 (u8 []) 0 = 0"
  "murmur3_x86_32 (u8 []) 1 = 0x514E28B7"
  "murmur3_x86_32 (u8 ''test'') 0x9747b28c = 0x704B81DC"
  "murmur3_x86_32 (u8 ''abc'') 0x9747b28c = 0xC84A62DD"
  "murmur3_x86_32 (u8 ''Hello, world!'') 0x9747b28c = 0x24884CBA"
  "murmur3_x86_32 (u8 ''The quick brown fox jumps over the lazy dog'') 0x9747b28c = 0x2FA826CD"
  by code_simp+

lemma rotl32_rotr32:
  assumes "0 < r" and "r < 32"
  shows "rotl32 (rotr32 x r) r = x"
proof (rule bit_word_eqI)
  fix n
  assume "n < LENGTH(32)"
  then have n: "n < 32" by simp
  show "bit (rotl32 (rotr32 x r) r) n \<longleftrightarrow> bit x n"
  proof (cases "n < r")
    case True
    with assms n show ?thesis
      unfolding rotl32_def rotr32_def
      by (auto simp add: bit_simps)
  next
    case False
    then have "r \<le> n" by simp
    with assms n show ?thesis
      unfolding rotl32_def rotr32_def
      by (auto simp add: bit_simps)
  qed
qed

lemma mul_inv_32:
  fixes a b x :: uint32_t
  assumes "a * b = 1"
  shows "x * a * b = x"
proof -
  have "x * a * b = x * (a * b)" by (simp only: mult.assoc)
  also have "\<dots> = x" by (simp only: assms mult_1_right)
  finally show ?thesis .
qed

lemma mul_inv_c1: "x * (0xdee13bb1 :: uint32_t) * 0xcc9e2d51 = x"
  by (rule mul_inv_32) simp

lemma mul_inv_c2: "x * (0x56ed309b :: uint32_t) * 0x1b873593 = x"
  by (rule mul_inv_32) simp

lemma mul_inv_5: "x * (0xcccccccd :: uint32_t) * 5 = x"
  by (rule mul_inv_32) simp

lemma mul_inv_f1: "x * (0xa5cb9243 :: uint32_t) * 0x85ebca6b = x"
  by (rule mul_inv_32) simp

lemma mul_inv_f2: "x * (0x7ed1b41d :: uint32_t) * 0xc2b2ae35 = x"
  by (rule mul_inv_32) simp

lemma mix_k1_unmix_k1: "mix_k1 (unmix_k1 m) = m"
  unfolding mix_k1_def unmix_k1_def
  by (simp only: mul_inv_c1 rotl32_rotr32 [of 15, simplified] mul_inv_c2)

lemma xor_cancel_right: "h1 XOR (a XOR h1) = (a :: uint32_t)"
  by (rule bit_word_eqI) (auto simp add: bit_simps)

lemma mix_h1_unmix_h1: "mix_h1 h1 (unmix_h1 h1 h) = h"
  unfolding mix_h1_def unmix_h1_def
  by (simp only: mix_k1_unmix_k1 xor_cancel_right rotl32_rotr32 [of 13, simplified] mul_inv_5
      diff_add_cancel)

lemma xorshift16: "(x XOR drop_bit 16 x) XOR drop_bit 16 (x XOR drop_bit 16 x) = (x :: uint32_t)"
  by (rule bit_word_eqI) (auto simp add: bit_simps)

lemma xorshift13:
  "(x XOR drop_bit 13 x XOR drop_bit 26 x) XOR drop_bit 13 (x XOR drop_bit 13 x XOR drop_bit 26 x)
     = (x :: uint32_t)"
  by (rule bit_word_eqI) (auto simp add: bit_simps)

lemma fmix32_unfmix32: "fmix32 (unfmix32 t) = t"
  unfolding fmix32_def unfmix32_def Let_def
  by (simp only: xorshift16 mul_inv_f1 xorshift13 mul_inv_f2)

lemma get_block_block_bytes:
  "get_block (ucast k) (ucast (drop_bit 8 k)) (ucast (drop_bit 16 k)) (ucast (drop_bit 24 k)) = k"
proof (rule bit_word_eqI)
  fix n
  assume "n < LENGTH(32)"
  then have "n < 32" by simp
  then consider "n < 8" | "8 \<le> n" "n < 16" | "16 \<le> n" "n < 24" | "24 \<le> n" "n < 32"
    by linarith
  then show "bit (get_block (ucast k) (ucast (drop_bit 8 k)) (ucast (drop_bit 16 k))
                 (ucast (drop_bit 24 k))) n \<longleftrightarrow> bit k n"
    unfolding get_block_def
    by cases (auto simp add: bit_simps)
qed


lemma murmur3_body_last_block:
  "murmur3_body h1 (last_block h1 n t) XOR of_nat n = unfmix32 t"
proof -
  have "(unfmix32 t XOR of_nat n) XOR of_nat n = unfmix32 t"
    by (rule bit_word_eqI) (auto simp add: bit_simps)
  then show ?thesis
    by (simp add: last_block_def block_bytes_def get_block_block_bytes mix_h1_unmix_h1)
qed

lemma murmur3_preimage4: "murmur3_x86_32 (preimage4 seed t) seed = t"
proof -
  have "length (preimage4 seed t) = 4"
    by (simp add: preimage4_def last_block_def block_bytes_def)
  then show ?thesis
    using murmur3_body_last_block [of seed 4 t]
    by (simp add: murmur3_x86_32_def preimage4_def fmix32_unfmix32)
qed

lemma murmur3_preimage8: "murmur3_x86_32 (preimage8 seed t) seed = t"
proof -
  have "length (preimage8 seed t) = 8"
    by (simp add: preimage8_def last_block_def block_bytes_def)
  then show ?thesis
    using murmur3_body_last_block [of "mix_h1 seed (get_block 0 0 0 0)" 8 t]
    by (simp add: murmur3_x86_32_def preimage8_def fmix32_unfmix32)
qed

lemma length_preimage: "length (preimage4 seed t) = 4" "length (preimage8 seed t) = 8"
  by (simp_all add: preimage4_def preimage8_def last_block_def block_bytes_def)

text \<open>
  The switch compares hashes only. Whatever the keyword list is, as long as it is not
  empty, some spelling of at most eight bytes that is not registered is recognised as a
  keyword: a key of four or of eight bytes with the hash of a registered keyword.
\<close>

lemma from_keyword_collision:
  assumes "distinct (keyword_hashes murmur3_x86_32 0xbeef kws)" and "kws \<noteq> []"
  shows "\<exists>s. length s \<le> 8 \<and> s \<notin> fst ` set kws \<and>
             TokenType_from_keyword murmur3_x86_32 kws s \<noteq> None \<and>
             TokenCategory_from_keyword murmur3_x86_32 kws s \<noteq> None"
proof -
  from assms(2) obtain K ty cat where K: "(K, ty, cat) \<in> set kws"
    by (cases kws) auto
  define t where "t = murmur3_x86_32 K 0xbeef"
  have t: "t \<in> set (keyword_hashes murmur3_x86_32 0xbeef kws)"
    using K by (force simp: keyword_hashes_def t_def)
  define s4 where "s4 = preimage4 0xbeef t"
  define s8 where "s8 = preimage8 0xbeef t"
  have h4: "murmur3_x86_32 s4 0xbeef = murmur3_x86_32 K 0xbeef"
    by (simp add: s4_def murmur3_preimage4 t_def)
  have h8: "murmur3_x86_32 s8 0xbeef = murmur3_x86_32 K 0xbeef"
    by (simp add: s8_def murmur3_preimage8 t_def)
  have l4: "length s4 = 4" and l8: "length s8 = 8"
    by (simp_all add: s4_def s8_def length_preimage)
  have r4: "TokenType_from_keyword murmur3_x86_32 kws s4 \<noteq> None \<and>
            TokenCategory_from_keyword murmur3_x86_32 kws s4 \<noteq> None"
    using t l4 h4 by (intro from_keyword_hash_present) (simp_all add: t_def)
  have r8: "TokenType_from_keyword murmur3_x86_32 kws s8 \<noteq> None \<and>
            TokenCategory_from_keyword murmur3_x86_32 kws s8 \<noteq> None"
    using t l8 h8 by (intro from_keyword_hash_present) (simp_all add: t_def)
  show ?thesis
  proof (cases "s4 \<in> fst ` set kws")
    case False
    with r4 l4 show ?thesis by (intro exI [of _ s4]) simp
  next
    case True
    then have "s4 = K" using assms(1) K h4 by (intro registered_same_hash)
    with l4 l8 have "s8 \<noteq> K" by auto
    then have "s8 \<notin> fst ` set kws"
      using registered_same_hash [OF assms(1) K _ h8] by blast
    with r8 l8 show ?thesis by (intro exI [of _ s8]) simp
  qed
qed

text \<open>
  C2. A spelling that is not a registered keyword must be absent for both lookups. With
  \<open>return\<close> as a registered keyword, the identifier \<open>akngtbip\<close> has the same hash under the
  seed \<open>0xBEEF\<close> and both lookups return the type and the category of \<open>return\<close>.
\<close>

theorem from_keyword_collision_at_return:
  "u8 ''akngtbip'' \<noteq> u8 ''return''
   \<and> murmur3_x86_32 (u8 ''return'') 0xbeef = 0x9E3520D8
   \<and> murmur3_x86_32 (u8 ''akngtbip'') 0xbeef = 0x9E3520D8
   \<and> TokenType_from_keyword murmur3_x86_32
        [(u8 ''return'', OtherType 0, (1 :: 32 word))] (u8 ''akngtbip'') = Some (OtherType 0)
   \<and> TokenCategory_from_keyword murmur3_x86_32
        [(u8 ''return'', OtherType 0, (1 :: 32 word))] (u8 ''akngtbip'') = Some 1"
  by code_simp


end
